theory Spec2Isabelle
  imports Complex_Main "HOL-Library.Multiset"
begin

section \<open>Numbers\<close>

text \<open>
  The sampler computes in Go's \<^verbatim>\<open>float32\<close>. Two kinds of values occur.

  \<^item> Counts (\<^verbatim>\<open>dist.count[i]\<close>, \<^verbatim>\<open>dist.sum\<close>) start at \<open>0\<close> and only ever change by
    \<^verbatim>\<open>++\<close> and \<^verbatim>\<open>--\<close>. They are therefore whole numbers, and every whole number of
    magnitude at most \<open>2^24\<close> is a \<^verbatim>\<open>float32\<close>. Adding one to \<open>2^24\<close> gives
    \<open>2^24 + 1\<close>, which lies half way between the neighbouring values \<open>2^24\<close> and
    \<open>2^24 + 2\<close> and is rounded to the even one, \<open>2^24\<close>: the increment is absorbed.
    The same happens to a decrement at \<open>- 2^24\<close>. Counts are modelled as \<open>int\<close>
    with exactly this behaviour.
  \<^item> Probabilities and weights are results of multiplications and divisions. They are
    modelled as rationals extended by the IEEE special values, so that division by zero
    and the comparisons with \<open>NaN\<close> behave as in Go. The operations \<open>f32_add\<close>,
    \<open>f32_sub\<close>, \<open>f32_mul\<close> and \<open>f32_div\<close> give the exact result; \<open>f32_round\<close> rounds an
    exact result to the nearest \<^verbatim>\<open>float32\<close>, ties to even, as IEEE 754 prescribes for
    every single operation. The weighted draw \<^verbatim>\<open>pickRandom\<close>, whose control flow depends
    on the rounding, rounds after each of its operations; the probabilities \<^verbatim>\<open>p(i)\<close> are
    kept exact. The sign of zero is not modelled: no comparison of the program
    distinguishes the two zeros.
\<close>

definition f32_max_int :: int where
  "f32_max_int = 2 ^ 24"

definition f32_inc :: "int \<Rightarrow> int" where
  "f32_inc x = (if x = f32_max_int then x else x + 1)"

definition f32_dec :: "int \<Rightarrow> int" where
  "f32_dec x = (if x = - f32_max_int then x else x - 1)"

datatype f32 = Fin rat | PInf | NInf | NaN

fun f32_add :: "f32 \<Rightarrow> f32 \<Rightarrow> f32" where
  "f32_add (Fin a) (Fin b) = Fin (a + b)"
| "f32_add NaN _ = NaN"
| "f32_add _ NaN = NaN"
| "f32_add PInf NInf = NaN"
| "f32_add NInf PInf = NaN"
| "f32_add PInf _ = PInf"
| "f32_add _ PInf = PInf"
| "f32_add NInf _ = NInf"
| "f32_add _ NInf = NInf"

fun f32_neg :: "f32 \<Rightarrow> f32" where
  "f32_neg (Fin a) = Fin (- a)"
| "f32_neg PInf = NInf"
| "f32_neg NInf = PInf"
| "f32_neg NaN = NaN"

definition f32_sub :: "f32 \<Rightarrow> f32 \<Rightarrow> f32" where
  "f32_sub x y = f32_add x (f32_neg y)"

text \<open>The sign of a value: \<open>-1\<close>, \<open>0\<close> or \<open>1\<close>; \<open>NaN\<close> has none.\<close>

fun f32_sign :: "f32 \<Rightarrow> int option" where
  "f32_sign (Fin a) = Some (if a < 0 then -1 else if a = 0 then 0 else 1)"
| "f32_sign PInf = Some 1"
| "f32_sign NInf = Some (-1)"
| "f32_sign NaN = None"

fun f32_mul :: "f32 \<Rightarrow> f32 \<Rightarrow> f32" where
  "f32_mul (Fin a) (Fin b) = Fin (a * b)"
| "f32_mul x y =
     (case (f32_sign x, f32_sign y) of
        (Some s, Some t) \<Rightarrow>
          (if s * t = 0 then NaN else if 0 < s * t then PInf else NInf)
      | _ \<Rightarrow> NaN)"

text \<open>Division of two finite values, the only division the sampler performs.\<close>

definition f32_div :: "rat \<Rightarrow> rat \<Rightarrow> f32" where
  "f32_div a b =
     (if b = 0 then (if a = 0 then NaN else if 0 < a then PInf else NInf)
      else Fin (a / b))"

text \<open>Comparisons: every comparison with \<open>NaN\<close> is false.\<close>

fun f32_less :: "f32 \<Rightarrow> f32 \<Rightarrow> bool" where
  "f32_less (Fin a) (Fin b) = (a < b)"
| "f32_less NaN _ = False"
| "f32_less _ NaN = False"
| "f32_less NInf NInf = False"
| "f32_less NInf _ = True"
| "f32_less _ NInf = False"
| "f32_less PInf _ = False"
| "f32_less _ PInf = True"

definition f32_is_zero :: "f32 \<Rightarrow> bool" where
  "f32_is_zero x = (x = Fin 0)"

subsection \<open>Rounding\<close>

text \<open>The nearest whole number, the even one of two that are equally near.\<close>

definition round_half_even :: "rat \<Rightarrow> int" where
  "round_half_even y =
     (let f = \<lfloor>y\<rfloor>; d = y - of_int f
      in if d < 1/2 then f else if 1/2 < d then f + 1 else if even f then f else f + 1)"

text \<open>
  A binary floating-point format with \<open>p\<close> bits of precision represents, around a
  value \<open>x\<close>, the multiples of a power of two \<open>q\<close>, the quantum: the least one from
  \<open>qmin\<close> on with \<open>\<bar>x\<bar> < q * 2^p\<close>. The search gives up after \<open>n\<close> doublings, at the
  quantum of the largest values of the format.
\<close>

fun fp_quantum :: "nat \<Rightarrow> rat \<Rightarrow> rat \<Rightarrow> nat \<Rightarrow> rat" where
  "fp_quantum p x q 0 = q"
| "fp_quantum p x q (Suc n) = (if \<bar>x\<bar> < q * 2 ^ p then q else fp_quantum p x (2 * q) n)"

definition fp_round :: "nat \<Rightarrow> rat \<Rightarrow> nat \<Rightarrow> rat \<Rightarrow> rat" where
  "fp_round p qmin n x =
     (let q = fp_quantum p x qmin n in of_int (round_half_even (x / q)) * q)"

text \<open>
  \<^verbatim>\<open>float32\<close> has \<open>24\<close> bits of precision, quanta from \<open>2^-149\<close> to \<open>2^104\<close>, and
  overflows to an infinity when the rounded magnitude reaches \<open>2^128\<close>.
\<close>

definition f32_of_rat :: "rat \<Rightarrow> f32" where
  "f32_of_rat x =
     (let y = fp_round 24 (1 / 2 ^ 149) 253 x
      in if 2 ^ 128 \<le> y then PInf else if y \<le> - (2 ^ 128) then NInf else Fin y)"

fun f32_round :: "f32 \<Rightarrow> f32" where
  "f32_round (Fin x) = f32_of_rat x"
| "f32_round PInf = PInf"
| "f32_round NInf = NInf"
| "f32_round NaN = NaN"

text \<open>
  The conversion \<^verbatim>\<open>float64(n)\<close> of a whole number below \<open>2^63\<close>: \<open>53\<close> bits of
  precision, quanta from \<open>1\<close> to \<open>2^10\<close>.
\<close>

definition f64_of_int63 :: "nat \<Rightarrow> rat" where
  "f64_of_int63 n = fp_round 53 1 10 (of_nat n)"

section \<open>Panics\<close>

text \<open>
  Every failure of the package is a Go \<^verbatim>\<open>panic\<close>. One constructor per \<^verbatim>\<open>panic\<close>
  call of the source, one for the run-time's index check and one for the panic of
  \<^verbatim>\<open>rand.Intn\<close>.
\<close>

datatype panic =
    KNotPositive int              \<comment> \<open>\<^verbatim>\<open>k must be positive. Got %d.\<close>\<close>
  | ThreadsNotPositive int        \<comment> \<open>\<^verbatim>\<open>Number of threads must be positive. Got %d.\<close>\<close>
  | NoWords                       \<comment> \<open>\<^verbatim>\<open>Found 0 words in documents.\<close>\<close>
  | NegativeCount nat             \<comment> \<open>\<^verbatim>\<open>Reached negative count for i=%d.\<close>\<close>
  | EmptyDistribution             \<comment> \<open>\<^verbatim>\<open>Cannot pick element from an empty distribution.\<close>\<close>
  | NegativeValue f32             \<comment> \<open>\<^verbatim>\<open>Got negative value in distribution: %v\<close>\<close>
  | IndexOutOfRange               \<comment> \<open>run-time panic of an index or slice expression\<close>
  | IntnArgument                  \<comment> \<open>\<^verbatim>\<open>math/rand\<close>: \<^verbatim>\<open>invalid argument to Intn\<close>\<close>

text \<open>
  The two classes of failure the specification names: a bad argument of a call, and a
  broken internal invariant of a count table.
\<close>

fun invalid_argument :: "panic \<Rightarrow> bool" where
  "invalid_argument (KNotPositive _) = True"
| "invalid_argument (ThreadsNotPositive _) = True"
| "invalid_argument NoWords = True"
| "invalid_argument EmptyDistribution = True"
| "invalid_argument (NegativeValue _) = True"
| "invalid_argument _ = False"

fun internal_invariant :: "panic \<Rightarrow> bool" where
  "internal_invariant (NegativeCount _) = True"
| "internal_invariant _ = False"

section \<open>Count tables\<close>

text \<open>The struct \<^verbatim>\<open>dist\<close>. Its fields \<^verbatim>\<open>sum\<close> and \<^verbatim>\<open>count\<close> are suffixed.\<close>

record dist =
  sum_d :: int
  count_d :: "int list"
  alpha :: rat
  alphas :: rat

definition newDist :: "nat \<Rightarrow> rat \<Rightarrow> dist" where
  "newDist n a = \<lparr>sum_d = 0, count_d = replicate n 0, alpha = a, alphas = a * of_nat n\<rparr>"

definition newDists :: "nat \<Rightarrow> nat \<Rightarrow> rat \<Rightarrow> dist list" where
  "newDists k n a = replicate k (newDist n a)"

text \<open>\<^verbatim>\<open>(*dist).p\<close>: the guard on \<^verbatim>\<open>sum\<close> comes before the index expression.\<close>

definition dist_p :: "dist \<Rightarrow> nat \<Rightarrow> panic + f32" where
  "dist_p d i =
     (if sum_d d = 0 then Inr (Fin 0)
      else if i < length (count_d d)
      then Inr (f32_div (of_int (count_d d ! i) + alpha d * of_int (sum_d d))
                        (of_int (sum_d d) + alphas d * of_int (sum_d d)))
      else Inl IndexOutOfRange)"

definition dist_add :: "dist \<Rightarrow> nat \<Rightarrow> panic + dist" where
  "dist_add d i =
     (if i < length (count_d d)
      then Inr (d\<lparr>count_d := (count_d d)[i := f32_inc (count_d d ! i)],
                  sum_d := f32_inc (sum_d d)\<rparr>)
      else Inl IndexOutOfRange)"

text \<open>\<^verbatim>\<open>(*dist).sub\<close> decrements first and checks afterwards.\<close>

definition dist_sub :: "dist \<Rightarrow> nat \<Rightarrow> panic + dist" where
  "dist_sub d i =
     (if i < length (count_d d)
      then (let c = f32_dec (count_d d ! i);
                d' = d\<lparr>count_d := (count_d d)[i := c], sum_d := f32_dec (sum_d d)\<rparr>
            in if c < 0 then Inl (NegativeCount i) else Inr d')
      else Inl IndexOutOfRange)"

text \<open>\<^verbatim>\<open>(*dist).dist\<close>: every count divided by the sum, with no guard.\<close>

definition dist_dist :: "dist \<Rightarrow> f32 list" where
  "dist_dist d = map (\<lambda>c. f32_div (of_int c) (of_int (sum_d d))) (count_d d)"

definition dist_copy :: "dist \<Rightarrow> dist" where
  "dist_copy d = \<lparr>sum_d = sum_d d, count_d = map (\<lambda>c. c) (count_d d),
                  alpha = alpha d, alphas = alphas d\<rparr>"

definition copyDists :: "dist list \<Rightarrow> dist list" where
  "copyDists dists = map dist_copy dists"

subsection \<open>The most likely categories\<close>

text \<open>
  \<^verbatim>\<open>(*dist).top\<close> sorts the permutation \<open>0, 1, ..., n - 1\<close> with \<^verbatim>\<open>sort.Sort\<close> of the Go
  standard library, which compares and swaps positions of \<^verbatim>\<open>perm\<close> through
  \<^verbatim>\<open>Less\<close> and \<^verbatim>\<open>Swap\<close>. \<^verbatim>\<open>Less(i, j)\<close> compares the counts of the categories
  at the two positions, so the order it induces on categories is \<open>distSorter_Less\<close>.
  The library's algorithm is a parameter \<open>srt\<close>: a function from this order and a list
  to a list. Its documented contract, \<open>sort_Sort_contract\<close>, is that the result is a
  rearrangement of the input in which no later element is \<^verbatim>\<open>Less\<close> than an earlier
  one; the order of elements neither of which is \<^verbatim>\<open>Less\<close> than the other is not
  determined.
\<close>

definition newDistSorter :: "dist \<Rightarrow> nat list" where
  "newDistSorter d = [0 ..< length (count_d d)]"

definition distSorter_Less :: "dist \<Rightarrow> nat \<Rightarrow> nat \<Rightarrow> bool" where
  "distSorter_Less d a b = (count_d d ! a > count_d d ! b)"

definition sort_Sort_contract ::
  "((nat \<Rightarrow> nat \<Rightarrow> bool) \<Rightarrow> nat list \<Rightarrow> nat list) \<Rightarrow> (nat \<Rightarrow> nat \<Rightarrow> bool) \<Rightarrow> nat list \<Rightarrow> bool" where
  "sort_Sort_contract srt lt xs =
     (mset (srt lt xs) = mset xs \<and> sorted_wrt (\<lambda>a b. \<not> lt b a) (srt lt xs))"

text \<open>On a negative \<open>n\<close> the slice expression \<^verbatim>\<open>s.perm[:n]\<close> panics.\<close>

definition dist_top ::
  "((nat \<Rightarrow> nat \<Rightarrow> bool) \<Rightarrow> nat list \<Rightarrow> nat list) \<Rightarrow> dist \<Rightarrow> int \<Rightarrow> panic + nat list" where
  "dist_top srt d n =
     (let perm = srt (distSorter_Less d) (newDistSorter d);
          n' = (if n > int (length perm) then int (length perm) else n)
      in if n' < 0 then Inl IndexOutOfRange else Inr (take (nat n') perm))"

text \<open>
  The insertion sort that \<^verbatim>\<open>sort.Sort\<close> runs on slices of fewer than twelve elements:
  each position \<open>i\<close> in turn is swapped towards the front while it is \<^verbatim>\<open>Less\<close> than
  its left neighbour. It instantiates the parameter on small tables.
\<close>

fun insertionSort_inner :: "(nat \<Rightarrow> nat \<Rightarrow> bool) \<Rightarrow> nat list \<Rightarrow> nat \<Rightarrow> nat list" where
  "insertionSort_inner lt xs 0 = xs"
| "insertionSort_inner lt xs (Suc j) =
     (if lt (xs ! Suc j) (xs ! j)
      then insertionSort_inner lt (xs[Suc j := xs ! j, j := xs ! Suc j]) j
      else xs)"

definition insertionSort :: "(nat \<Rightarrow> nat \<Rightarrow> bool) \<Rightarrow> nat list \<Rightarrow> nat list" where
  "insertionSort lt xs = fold (\<lambda>i ys. insertionSort_inner lt ys i) [1 ..< length xs] xs"

section \<open>The random source and the weighted draw\<close>

text \<open>
  \<^verbatim>\<open>math/rand\<close> belongs to the Go standard library. A random source is modelled by the
  stream of raw values it is going to produce; taking a value moves to the rest of the
  stream. \<^verbatim>\<open>Intn(n)\<close> reduces a raw value modulo \<open>n\<close> and panics when \<open>n\<close> is not
  positive. \<^verbatim>\<open>Float32()\<close> is \<^verbatim>\<open>float32(float64(r.Int63()) / (1 << 63))\<close>, drawn again when
  the result is \<open>1\<close>; the raw values that are not drawn again are those below
  \<open>2^63 - 2^38 - 2^9\<close>, and a raw value of the stream is reduced modulo this bound. The
  results are the values of \<^verbatim>\<open>float32\<close> in \<open>[0, 1)\<close> that are multiples of \<open>2^-63\<close>.
  Quantifying over all streams covers every state of a source.
\<close>

type_synonym rand = "nat \<Rightarrow> nat"

definition rand_rest :: "rand \<Rightarrow> rand" where
  "rand_rest rnd = (\<lambda>n. rnd (Suc n))"

definition rand_Intn :: "rand \<Rightarrow> int \<Rightarrow> panic + (nat \<times> rand)" where
  "rand_Intn rnd n =
     (if n \<le> 0 then Inl IntnArgument else Inr (rnd 0 mod nat n, rand_rest rnd))"

definition rand_Float32 :: "rand \<Rightarrow> f32 \<times> rand" where
  "rand_Float32 rnd =
     (f32_of_rat (f64_of_int63 (rnd 0 mod (2 ^ 63 - 2 ^ 38 - 2 ^ 9)) / 2 ^ 63), rand_rest rnd)"

text \<open>
  The first loop of \<^verbatim>\<open>pickRandom\<close>: check each weight, then add it to the sum,
  \<^verbatim>\<open>sum += a[i]\<close> in \<^verbatim>\<open>float32\<close>.
\<close>

fun pickRandom_sum :: "f32 list \<Rightarrow> f32 \<Rightarrow> panic + f32" where
  "pickRandom_sum [] s = Inr s"
| "pickRandom_sum (x # xs) s =
     (if f32_less x (Fin 0) then Inl (NegativeValue x)
      else pickRandom_sum xs (f32_round (f32_add s x)))"

text \<open>
  The second loop: \<^verbatim>\<open>for i < len(a) && r > a[i] { r -= a[i]; i++ }\<close>, the subtraction
  in \<^verbatim>\<open>float32\<close>.
\<close>

function pickRandom_scan :: "f32 list \<Rightarrow> f32 \<Rightarrow> nat \<Rightarrow> nat" where
  "pickRandom_scan a r i =
     (if i < length a \<and> f32_less (a ! i) r
      then pickRandom_scan a (f32_round (f32_sub r (a ! i))) (i + 1)
      else i)"
  by pat_completeness auto
termination
  by (relation "measure (\<lambda>(a, r, i). length a - i)") auto

text \<open>
  \<^verbatim>\<open>pickRandom\<close>. When the scan has passed every weight, which rounding makes possible,
  the last index is returned.
\<close>

definition pickRandom :: "f32 list \<Rightarrow> rand \<Rightarrow> panic + (nat \<times> rand)" where
  "pickRandom a rnd =
     (if length a = 0 then Inl EmptyDistribution
      else case pickRandom_sum a (Fin 0) of
             Inl e \<Rightarrow> Inl e
           | Inr s \<Rightarrow>
               if f32_is_zero s then rand_Intn rnd (int (length a))
               else (let (u, rnd') = rand_Float32 rnd;
                         r = f32_round (f32_mul u s);
                         i = pickRandom_scan a r 0;
                         i' = (if i = length a then i - 1 else i)
                     in Inr (i', rnd')))"

section \<open>The sampler\<close>

subsection \<open>Loops that may panic\<close>

text \<open>
  A Go \<^verbatim>\<open>for ... range\<close> loop whose body may panic: the body is run on each element in
  turn, and the first panic ends the loop.
\<close>

fun loop :: "('a \<Rightarrow> 's \<Rightarrow> panic + 's) \<Rightarrow> 'a list \<Rightarrow> 's \<Rightarrow> panic + 's" where
  "loop body [] s = Inr s"
| "loop body (x # xs) s = (case body x s of Inl e \<Rightarrow> Inl e | Inr s' \<Rightarrow> loop body xs s')"

text \<open>\<^verbatim>\<open>dists[t].add(w)\<close> and \<^verbatim>\<open>dists[t].sub(w)\<close> on a slice of tables.\<close>

definition dists_add :: "dist list \<Rightarrow> nat \<Rightarrow> nat \<Rightarrow> panic + dist list" where
  "dists_add dists t w =
     (if t < length dists
      then (case dist_add (dists ! t) w of Inl e \<Rightarrow> Inl e | Inr d' \<Rightarrow> Inr (dists[t := d']))
      else Inl IndexOutOfRange)"

definition dists_sub :: "dist list \<Rightarrow> nat \<Rightarrow> nat \<Rightarrow> panic + dist list" where
  "dists_sub dists t w =
     (if t < length dists
      then (case dist_sub (dists ! t) w of Inl e \<Rightarrow> Inl e | Inr d' \<Rightarrow> Inr (dists[t := d']))
      else Inl IndexOutOfRange)"

subsection \<open>The word map and the initial assignment\<close>

text \<open>
  The map \<^verbatim>\<open>words\<close> gives each new word the current size of the map as its index. It is
  kept as an association list in the order of insertion, so that its length is
  \<^verbatim>\<open>len(words)\<close>.
\<close>

type_synonym words = "(string \<times> nat) list"

definition words_add :: "string \<Rightarrow> words \<Rightarrow> words" where
  "words_add word ws =
     (case map_of ws word of None \<Rightarrow> ws @ [(word, length ws)] | Some _ \<Rightarrow> ws)"

definition make_words :: "string list list \<Rightarrow> words" where
  "make_words docTokens = fold (\<lambda>doc ws. fold words_add doc ws) docTokens []"

text \<open>Reading a key that a Go map does not hold gives the zero value.\<close>

definition words_get :: "words \<Rightarrow> string \<Rightarrow> nat" where
  "words_get ws word = (case map_of ws word of None \<Rightarrow> 0 | Some i \<Rightarrow> i)"

definition make_docs :: "words \<Rightarrow> string list list \<Rightarrow> nat list list" where
  "make_docs ws docTokens = map (map (words_get ws)) docTokens"

text \<open>
  The initial assignment draws a topic for every token from the global random source of
  \<^verbatim>\<open>math/rand\<close>. The source is shared state of the program; it is passed in and handed
  back, also when the assignment panics.
\<close>

fun init_row :: "int \<Rightarrow> nat list \<Rightarrow> dist list \<Rightarrow> rand \<Rightarrow> (panic + (nat list \<times> dist list)) \<times> rand" where
  "init_row k [] topics g = (Inr ([], topics), g)"
| "init_row k (word # doc) topics g =
     (case rand_Intn g k of
        Inl e \<Rightarrow> (Inl e, g)
      | Inr (t, g') \<Rightarrow>
          (case dists_add topics t word of
             Inl e \<Rightarrow> (Inl e, g')
           | Inr topics' \<Rightarrow>
               (case init_row k doc topics' g' of
                  (Inl e, g'') \<Rightarrow> (Inl e, g'')
                | (Inr (row, topics''), g'') \<Rightarrow> (Inr (t # row, topics''), g''))))"

fun init_doct :: "int \<Rightarrow> nat list list \<Rightarrow> dist list \<Rightarrow> rand \<Rightarrow> (panic + (nat list list \<times> dist list)) \<times> rand" where
  "init_doct k [] topics g = (Inr ([], topics), g)"
| "init_doct k (doc # docs) topics g =
     (case init_row k doc topics g of
        (Inl e, g') \<Rightarrow> (Inl e, g')
      | (Inr (row, topics'), g') \<Rightarrow>
          (case init_doct k docs topics' g' of
             (Inl e, g'') \<Rightarrow> (Inl e, g'')
           | (Inr (doct, topics''), g'') \<Rightarrow> (Inr (row # doct, topics''), g'')))"

subsection \<open>One document in a worker\<close>

text \<open>
  What a worker holds while it resamples document \<open>i\<close>: the document's count table
  \<^verbatim>\<open>d\<close>, the row \<^verbatim>\<open>doct[i]\<close> it is rewriting, and its private \<^verbatim>\<open>myTopics\<close>,
  \<^verbatim>\<open>myChangeMap\<close> and \<^verbatim>\<open>myRand\<close>.
\<close>

record doc_state =
  cur_d :: dist
  cur_row :: "nat list"
  myTopics :: "dist list"
  myChangeMap :: "nat set"
  myRand :: rand

text \<open>\<^verbatim>\<open>d.sub(t); myTopics[t].sub(word)\<close> for the token at position \<open>j\<close>.\<close>

definition token_unassign :: "nat list \<Rightarrow> nat \<Rightarrow> doc_state \<Rightarrow> panic + doc_state" where
  "token_unassign doc j s =
     (if j < length (cur_row s) \<and> j < length doc
      then (case dist_sub (cur_d s) (cur_row s ! j) of
              Inl e \<Rightarrow> Inl e
            | Inr d' \<Rightarrow>
                (case dists_sub (myTopics s) (cur_row s ! j) (doc ! j) of
                   Inl e \<Rightarrow> Inl e
                 | Inr mt \<Rightarrow> Inr (s\<lparr>cur_d := d', myTopics := mt\<rparr>)))
      else Inl IndexOutOfRange)"

text \<open>\<^verbatim>\<open>ts[k] = d.p(k) * myTopics[k].p(word)\<close> for every \<open>k\<close> below the number of topics.\<close>

fun token_weights :: "nat list \<Rightarrow> nat \<Rightarrow> doc_state \<Rightarrow> panic + f32 list" where
  "token_weights [] word s = Inr []"
| "token_weights (k # ks) word s =
     (case dist_p (cur_d s) k of
        Inl e \<Rightarrow> Inl e
      | Inr a \<Rightarrow>
          (if k < length (myTopics s)
           then (case dist_p (myTopics s ! k) word of
                   Inl e \<Rightarrow> Inl e
                 | Inr b \<Rightarrow>
                     (case token_weights ks word s of
                        Inl e \<Rightarrow> Inl e
                      | Inr ts \<Rightarrow> Inr (f32_mul a b # ts)))
           else Inl IndexOutOfRange))"

text \<open>
  The new topic \<open>t2\<close> is recorded: the word is marked as changed when \<open>t2\<close> differs from
  the old topic, then \<^verbatim>\<open>doct[i][j] = t2; d.add(t2); myTopics[t2].add(word)\<close>.
\<close>

definition token_assign :: "nat list \<Rightarrow> nat \<Rightarrow> nat \<Rightarrow> doc_state \<Rightarrow> panic + doc_state" where
  "token_assign doc j t2 s =
     (let s1 = (if t2 \<noteq> cur_row s ! j
                then s\<lparr>myChangeMap := insert (doc ! j) (myChangeMap s)\<rparr> else s);
          s2 = s1\<lparr>cur_row := (cur_row s1)[j := t2]\<rparr>
      in case dist_add (cur_d s2) t2 of
           Inl e \<Rightarrow> Inl e
         | Inr d' \<Rightarrow>
             (case dists_add (myTopics s2) t2 (doc ! j) of
                Inl e \<Rightarrow> Inl e
              | Inr mt \<Rightarrow> Inr (s2\<lparr>cur_d := d', myTopics := mt\<rparr>)))"

text \<open>The body of the loop \<^verbatim>\<open>for j := range doct[i]\<close> that reassigns each word.\<close>

definition token_step :: "nat \<Rightarrow> nat list \<Rightarrow> nat \<Rightarrow> doc_state \<Rightarrow> panic + doc_state" where
  "token_step K doc j s =
     (case token_unassign doc j s of
        Inl e \<Rightarrow> Inl e
      | Inr s1 \<Rightarrow>
          (case token_weights [0 ..< K] (doc ! j) s1 of
             Inl e \<Rightarrow> Inl e
           | Inr ts \<Rightarrow>
               (case pickRandom ts (myRand s1) of
                  Inl e \<Rightarrow> Inl e
                | Inr (t2, rnd') \<Rightarrow> token_assign doc j t2 (s1\<lparr>myRand := rnd'\<rparr>))))"

text \<open>
  The first loop over the row builds the document's table, \<^verbatim>\<open>d.add(doct[i][j])\<close> for each
  \<open>j\<close>; \<open>build_d K row m\<close> is the table after \<open>m\<close> rounds of it.
\<close>

definition build_d :: "nat \<Rightarrow> nat list \<Rightarrow> nat \<Rightarrow> panic + dist" where
  "build_d K row m =
     loop (\<lambda>j d. dist_add d (row ! j)) [0 ..< m] (newDist K ((1/10) / of_nat K))"

text \<open>
  \<open>resample K doc s m\<close> is the state after \<open>m\<close> rounds of the second loop, started in
  \<open>s\<close>.
\<close>

definition resample :: "nat \<Rightarrow> nat list \<Rightarrow> doc_state \<Rightarrow> nat \<Rightarrow> panic + doc_state" where
  "resample K doc s m = loop (token_step K doc) [0 ..< m] s"

text \<open>What a worker carries from one document to the next, and the shared matrix.\<close>

record worker_state =
  w_doct :: "nat list list"
  w_topics :: "dist list"
  w_changes :: "nat set"
  w_rand :: rand

definition doc_start :: "dist \<Rightarrow> nat \<Rightarrow> worker_state \<Rightarrow> doc_state" where
  "doc_start d i w =
     \<lparr>cur_d = d, cur_row = w_doct w ! i, myTopics = w_topics w,
      myChangeMap = w_changes w, myRand = w_rand w\<rparr>"

text \<open>The body of the worker's loop \<^verbatim>\<open>for i := range push\<close>.\<close>

definition process_doc :: "nat \<Rightarrow> nat list list \<Rightarrow> nat \<Rightarrow> worker_state \<Rightarrow> panic + worker_state" where
  "process_doc K docs i w =
     (if i < length (w_doct w) \<and> i < length docs
      then (case build_d K (w_doct w ! i) (length (w_doct w ! i)) of
              Inl e \<Rightarrow> Inl e
            | Inr d \<Rightarrow>
                (case resample K (docs ! i) (doc_start d i w) (length (w_doct w ! i)) of
                   Inl e \<Rightarrow> Inl e
                 | Inr s \<Rightarrow>
                     Inr \<lparr>w_doct = (w_doct w)[i := cur_row s], w_topics = myTopics s,
                          w_changes = myChangeMap s, w_rand = myRand s\<rparr>))
      else Inl IndexOutOfRange)"

subsection \<open>One round\<close>

text \<open>
  What the run-time decides in a round is a parameter: \<open>newRand r w\<close> is the random
  source that \<^verbatim>\<open>newRand()\<close> gives worker \<open>w\<close> in round \<open>r\<close>, and \<open>receiver r i\<close>
  (taken modulo the number of workers) is the worker that receives document \<open>i\<close> from
  the channel \<^verbatim>\<open>push\<close>. The channel hands the documents out in the order of their
  indices, so a worker sees its documents in increasing order. The workers write
  disjoint rows of \<^verbatim>\<open>doct\<close> and share nothing else, so running them one after the other
  gives what running them side by side gives.
\<close>

record schedule =
  newRand :: "nat \<Rightarrow> nat \<Rightarrow> rand"
  receiver :: "nat \<Rightarrow> nat \<Rightarrow> nat"

definition worker_docs :: "schedule \<Rightarrow> nat \<Rightarrow> nat \<Rightarrow> nat \<Rightarrow> nat \<Rightarrow> nat list" where
  "worker_docs sch r numThreads n w =
     filter (\<lambda>i. receiver sch r i mod numThreads = w) [0 ..< n]"

text \<open>
  A worker thread: a copy of the topics, an empty change map and a fresh random source;
  it returns the matrix with its rows rewritten and its change map.
\<close>

definition worker ::
  "schedule \<Rightarrow> nat \<Rightarrow> nat \<Rightarrow> nat \<Rightarrow> nat list list \<Rightarrow> dist list \<Rightarrow> nat
     \<Rightarrow> nat list list \<times> nat set \<Rightarrow> panic + nat list list \<times> nat set" where
  "worker sch r numThreads K docs topics w = (\<lambda>(doct, changeMap).
     case loop (process_doc K docs) (worker_docs sch r numThreads (length docs) w)
            \<lparr>w_doct = doct, w_topics = copyDists topics, w_changes = {},
             w_rand = newRand sch r w\<rparr> of
       Inl e \<Rightarrow> Inl e
     | Inr ws \<Rightarrow> Inr (w_doct ws, changeMap \<union> w_changes ws))"

text \<open>
  The puller thread adds every token of a finished document to the new topics. The
  documents arrive in the order \<open>order\<close> in which the workers finish them.
\<close>

definition puller_doc :: "nat list list \<Rightarrow> nat list list \<Rightarrow> nat \<Rightarrow> dist list \<Rightarrow> panic + dist list" where
  "puller_doc docs doct i newTopics =
     (if i < length doct \<and> i < length docs
      then loop (\<lambda>j nt. if j < length (docs ! i) then dists_add nt (doct ! i ! j) (docs ! i ! j)
                       else Inl IndexOutOfRange)
             [0 ..< length (doct ! i)] newTopics
      else Inl IndexOutOfRange)"

definition puller :: "nat list list \<Rightarrow> nat list list \<Rightarrow> nat list \<Rightarrow> dist list \<Rightarrow> panic + dist list" where
  "puller docs doct order newTopics = loop (puller_doc docs doct) order newTopics"

text \<open>
  A round of the main loop up to \<^verbatim>\<open>topics = newTopics\<close>: the new topics, the matrix and
  the change map. The puller is run on the documents in the order of their indices; the
  counts it produces do not depend on the order.
\<close>

definition lda_round ::
  "schedule \<Rightarrow> nat \<Rightarrow> nat \<Rightarrow> nat \<Rightarrow> nat \<Rightarrow> nat list list \<Rightarrow> dist list \<Rightarrow> nat list list
     \<Rightarrow> panic + dist list \<times> nat list list \<times> nat set" where
  "lda_round sch r numThreads K V docs topics doct =
     (case loop (worker sch r numThreads K docs topics) [0 ..< numThreads] (doct, {}) of
        Inl e \<Rightarrow> Inl e
      | Inr (doct', changeMap) \<Rightarrow>
          (case puller docs doct' [0 ..< length docs] (newDists K V ((1/10) / of_nat V)) of
             Inl e \<Rightarrow> Inl e
           | Inr newTopics \<Rightarrow> Inr (newTopics, doct', changeMap)))"

subsection \<open>The halting condition and the main loop\<close>

text \<open>
  The end of the loop body, for a change map of size \<open>c\<close>:
  \<^verbatim>\<open>if c >= lastChange { breakSignals++; if breakSignals == 5 { break } }; lastChange = c\<close>.
  The result says whether the loop is left, and gives the new \<^verbatim>\<open>lastChange\<close> and
  \<^verbatim>\<open>breakSignals\<close>; \<^verbatim>\<open>break\<close> skips the assignment to \<^verbatim>\<open>lastChange\<close>.
\<close>

definition halting_check :: "nat \<Rightarrow> nat \<times> nat \<Rightarrow> bool \<times> nat \<times> nat" where
  "halting_check c = (\<lambda>(lastChange, breakSignals).
     if c \<ge> lastChange
     then (if breakSignals + 1 = 5 then (True, lastChange, breakSignals + 1)
           else (False, c, breakSignals + 1))
     else (False, c, breakSignals))"

text \<open>
  The halting condition over the change-map sizes of successive rounds: the state after
  the round that leaves the loop, or after the last size when none does.
\<close>

fun halting_run :: "nat \<times> nat \<Rightarrow> nat list \<Rightarrow> bool \<times> nat \<times> nat" where
  "halting_run (lastChange, breakSignals) [] = (False, lastChange, breakSignals)"
| "halting_run (lastChange, breakSignals) (c # cs) =
     (case halting_check c (lastChange, breakSignals) of
        (True, st) \<Rightarrow> (True, st)
      | (False, st) \<Rightarrow> halting_run st cs)"

record lda_state =
  lda_topics :: "dist list"
  lda_doct :: "nat list list"
  lda_lastChange :: nat
  lda_breakSignals :: nat

text \<open>The loop \<^verbatim>\<open>for { ... }\<close>; \<open>r\<close> counts the rounds. Not returning is \<open>None\<close>.\<close>

partial_function (option) lda_loop ::
  "schedule \<Rightarrow> nat \<Rightarrow> nat \<Rightarrow> nat \<Rightarrow> nat list list \<Rightarrow> nat \<Rightarrow> lda_state \<Rightarrow> (panic + lda_state) option" where
  "lda_loop sch numThreads K V docs r st =
     (case lda_round sch r numThreads K V docs (lda_topics st) (lda_doct st) of
        Inl e \<Rightarrow> Some (Inl e)
      | Inr (newTopics, doct', changeMap) \<Rightarrow>
          (case halting_check (card changeMap) (lda_lastChange st, lda_breakSignals st) of
             (halt, lc, bs) \<Rightarrow>
               (let st' = \<lparr>lda_topics = newTopics, lda_doct = doct',
                           lda_lastChange = lc, lda_breakSignals = bs\<rparr>
                in if halt then Some (Inr st')
                   else lda_loop sch numThreads K V docs (Suc r) st')))"

declare lda_loop.simps [code]

text \<open>
  The halting condition as the specification words it, for comparison: the counter is
  reset to zero by a round that reduces the size, \<^verbatim>\<open>lastChange\<close> is always set, and the
  loop is left when the counter is \<open>5\<close>.
\<close>

definition spec_halting_check :: "nat \<Rightarrow> nat \<times> nat \<Rightarrow> bool \<times> nat \<times> nat" where
  "spec_halting_check c = (\<lambda>(lc, counter).
     let counter' = (if c \<ge> lc then counter + 1 else 0)
     in (counter' = 5, c, counter'))"

fun spec_halting_run :: "nat \<times> nat \<Rightarrow> nat list \<Rightarrow> bool \<times> nat \<times> nat" where
  "spec_halting_run (lc, counter) [] = (False, lc, counter)"
| "spec_halting_run (lc, counter) (c # cs) =
     (case spec_halting_check c (lc, counter) of
        (True, st) \<Rightarrow> (True, st)
      | (False, st) \<Rightarrow> spec_halting_run st cs)"

text \<open>
  The number of non-reducing rounds in a run: the rounds whose change-map size is not
  below that of the round before, the first being compared with \<open>lc\<close>.
\<close>

fun stagnant_rounds :: "nat \<Rightarrow> nat list \<Rightarrow> nat" where
  "stagnant_rounds lc [] = 0"
| "stagnant_rounds lc (c # cs) =
     (if c \<ge> lc then 1 else 0) + stagnant_rounds c cs"

subsection \<open>The interface function\<close>

text \<open>\<^verbatim>\<open>sdrow[i] = word\<close> for every entry of the word map.\<close>

definition make_sdrow :: "words \<Rightarrow> string list" where
  "make_sdrow ws = fold (\<lambda>(word, i) sdrow. sdrow[i := word]) ws (replicate (length ws) [])"

text \<open>
  \<^verbatim>\<open>LdaThreads\<close>. The result is the panic or the three returned values, together with
  the global random source as the call leaves it.
\<close>

definition LdaThreads ::
  "schedule \<Rightarrow> string list list \<Rightarrow> int \<Rightarrow> int \<Rightarrow> rand
     \<Rightarrow> ((panic + f32 list list \<times> nat list list \<times> string list) \<times> rand) option" where
  "LdaThreads sch docTokens k numThreads g =
     (if k < 1 then Some (Inl (KNotPositive k), g)
      else if numThreads < 1 then Some (Inl (ThreadsNotPositive numThreads), g)
      else
        let ws = make_words docTokens in
        if length ws = 0 then Some (Inl NoWords, g)
        else
          let docs = make_docs ws docTokens;
              V = length ws
          in case init_doct k docs (newDists (nat k) V ((1/10) / of_nat V)) g of
               (Inl e, g') \<Rightarrow> Some (Inl e, g')
             | (Inr (doct0, topics0), g') \<Rightarrow>
                 (case lda_loop sch (nat numThreads) (nat k) V docs 0
                         \<lparr>lda_topics = topics0, lda_doct = doct0,
                          lda_lastChange = V, lda_breakSignals = 0\<rparr> of
                    None \<Rightarrow> None
                  | Some (Inl e) \<Rightarrow> Some (Inl e, g')
                  | Some (Inr st) \<Rightarrow>
                      Some (Inr (map dist_dist (lda_topics st), lda_doct st, make_sdrow ws), g')))"

text \<open>\<^verbatim>\<open>Lda\<close> is \<^verbatim>\<open>LdaThreads\<close> with one thread.\<close>

definition Lda ::
  "schedule \<Rightarrow> string list list \<Rightarrow> int \<Rightarrow> rand
     \<Rightarrow> ((panic + f32 list list \<times> nat list list \<times> string list) \<times> rand) option" where
  "Lda sch docTokens k g = LdaThreads sch docTokens k 1 g"

section \<open>Properties of count tables\<close>

text \<open>
  Claim C6. For a category \<open>i\<close> of the table, \<^verbatim>\<open>sub(i)\<close> panics with the negative-count
  message, an internal-invariant failure, if and only if the count of \<open>i\<close> was below one
  before the call; otherwise it succeeds, and the new table has the count of \<open>i\<close> and the
  sum each lowered by one and everything else unchanged. The sum is assumed above the
  point \<open>- 2^24\<close> where a \<^verbatim>\<open>float32\<close> decrement is absorbed; the sum of a table whose
  counts are non-negative and add up to it always is.
\<close>

theorem dist_sub_spec:
  assumes "i < length (count_d d)" and "- f32_max_int < sum_d d"
  shows "((\<exists>e. dist_sub d i = Inl e \<and> internal_invariant e) \<longleftrightarrow> count_d d ! i < 1)
       \<and> (count_d d ! i < 1 \<longrightarrow> dist_sub d i = Inl (NegativeCount i))
       \<and> (\<not> count_d d ! i < 1 \<longrightarrow>
            dist_sub d i = Inr (d\<lparr>count_d := (count_d d)[i := count_d d ! i - 1],
                                   sum_d := sum_d d - 1\<rparr>))"
  using assms by (auto simp: dist_sub_def f32_dec_def f32_max_int_def Let_def)

theorem dist_sub_spec_witness:
  "dist_sub \<lparr>sum_d = 2, count_d = [2, 0], alpha = 1/20, alphas = 1/10\<rparr> 0
     = Inr \<lparr>sum_d = 1, count_d = [1, 0], alpha = 1/20, alphas = 1/10\<rparr>
   \<and> dist_sub \<lparr>sum_d = 2, count_d = [2, 0], alpha = 1/20, alphas = 1/10\<rparr> 1
     = Inl (NegativeCount 1)"
  using dist_sub_spec [of 0 "\<lparr>sum_d = 2, count_d = [2, 0], alpha = 1/20, alphas = 1/10\<rparr>"]
        dist_sub_spec [of 1 "\<lparr>sum_d = 2, count_d = [2, 0], alpha = 1/20, alphas = 1/10\<rparr>"]
  by (simp add: f32_max_int_def)

text \<open>
  Claim C4. For a table as the sampler builds them (the smoothing parameter is positive,
  \<^verbatim>\<open>alphas\<close> is \<^verbatim>\<open>alpha\<close> times the number of categories, no count is negative and the
  sum is not negative) and a category \<open>i\<close> of it, the probability estimate is \<open>0\<close> when
  the sum is \<open>0\<close> and \<open>(count[i] + alpha*sum) / (sum + alphas*sum)\<close> otherwise, and it is
  \<open>0\<close> exactly when the sum is \<open>0\<close>.
\<close>

theorem dist_p_spec:
  assumes "i < length (count_d d)"
    and "alphas d = alpha d * of_nat (length (count_d d))"
    and "0 < alpha d"
    and "\<forall>c\<in>set (count_d d). 0 \<le> c"
    and "0 \<le> sum_d d"
  shows "dist_p d i =
           Inr (if sum_d d = 0 then Fin 0
                else Fin ((of_int (count_d d ! i) + alpha d * of_int (sum_d d))
                          / (of_int (sum_d d) + alphas d * of_int (sum_d d))))
       \<and> (dist_p d i = Inr (Fin 0) \<longleftrightarrow> sum_d d = 0)"
proof (cases "sum_d d = 0")
  case True
  then show ?thesis by (simp add: dist_p_def)
next
  case False
  define s :: rat where "s = of_int (sum_d d)"
  define c :: rat where "c = of_int (count_d d ! i)"
  have s: "0 < s" using False assms(5) by (simp add: s_def)
  have c: "0 \<le> c" using assms(1,4) by (simp add: c_def)
  have "0 < length (count_d d)" using assms(1) by linarith
  then have "0 < (of_nat (length (count_d d)) :: rat)" by (simp del: length_greater_0_conv)
  then have "0 < alphas d" using assms(2,3) by simp
  then have as: "0 < alphas d * s" using s by simp
  have den: "0 < s + alphas d * s" using s as by simp
  have num: "0 < c + alpha d * s" using c s assms(3) by (simp add: add_nonneg_pos)
  have "dist_p d i = Inr (Fin ((c + alpha d * s) / (s + alphas d * s)))"
    using False assms(1) den by (simp add: dist_p_def f32_div_def s_def c_def)
  moreover have "(c + alpha d * s) / (s + alphas d * s) \<noteq> 0"
    using num den by simp
  ultimately show ?thesis using False by (simp add: s_def c_def)
qed

theorem dist_p_spec_witness:
  "dist_p \<lparr>sum_d = 2, count_d = [2, 0], alpha = 1/20, alphas = 1/10\<rparr> 1 = Inr (Fin (1/22))
   \<and> dist_p \<lparr>sum_d = 0, count_d = [0, 0], alpha = 1/20, alphas = 1/10\<rparr> 1 = Inr (Fin 0)"
  using dist_p_spec [of 1 "\<lparr>sum_d = 2, count_d = [2, 0], alpha = 1/20, alphas = 1/10\<rparr>"]
        dist_p_spec [of 1 "\<lparr>sum_d = 0, count_d = [0, 0], alpha = 1/20, alphas = 1/10\<rparr>"]
  by simp

subsection \<open>The most likely categories\<close>

lemma sorted_perm_facts:
  assumes "mset perm = mset [0 ..< V]"
  shows "length perm = V" and "distinct perm" and "set perm = {0 ..< V}"
proof -
  show "length perm = V" using assms by (metis length_upt mset_eq_length minus_nat.diff_0)
  show "distinct perm" using assms by (metis distinct_upt mset_eq_imp_distinct_iff)
  show "set perm = {0 ..< V}" using assms by (metis mset_eq_setD set_upt)
qed

lemma take_dominates:
  assumes "sorted_wrt P perm" and "i \<in> set (take m perm)" and "j \<in> set perm"
    and "j \<notin> set (take m perm)"
  shows "P i j"
proof -
  have "sorted_wrt P (take m perm @ drop m perm)" using assms(1) by simp
  then have "\<forall>x\<in>set (take m perm). \<forall>y\<in>set (drop m perm). P x y"
    unfolding sorted_wrt_append by blast
  moreover have "j \<in> set (drop m perm)"
    using assms(3,4) by (metis Un_iff append_take_drop_id set_append)
  ultimately show ?thesis using assms(2) by blast
qed

text \<open>
  Claim C8. With a sorting routine that meets the contract of \<^verbatim>\<open>sort.Sort\<close> on the
  table, \<^verbatim>\<open>top(n)\<close> for \<open>n \<ge> 0\<close> returns \<open>min n V\<close> distinct categories of the table,
  none of which has a smaller count than a category left out; for \<open>n \<ge> V\<close> the result
  holds every category exactly once, and for \<open>n = 0\<close> it is empty. Nothing is said about
  the order among equal counts.
\<close>

theorem dist_top_spec:
  assumes "sort_Sort_contract srt (distSorter_Less d) (newDistSorter d)" and "0 \<le> n"
  shows "\<exists>r. dist_top srt d n = Inr r
           \<and> length r = min (nat n) (length (count_d d))
           \<and> distinct r
           \<and> set r \<subseteq> {0 ..< length (count_d d)}
           \<and> (\<forall>i\<in>set r. \<forall>j < length (count_d d). j \<notin> set r \<longrightarrow> count_d d ! j \<le> count_d d ! i)
           \<and> (int (length (count_d d)) \<le> n \<longrightarrow> mset r = mset [0 ..< length (count_d d)])
           \<and> (n = 0 \<longrightarrow> r = [])"
proof -
  define V where "V = length (count_d d)"
  define perm where "perm = srt (distSorter_Less d) (newDistSorter d)"
  define m where "m = min (nat n) V"
  have ms: "mset perm = mset [0 ..< V]"
    and so: "sorted_wrt (\<lambda>a b. \<not> distSorter_Less d b a) perm"
    using assms(1) by (simp_all add: sort_Sort_contract_def perm_def newDistSorter_def V_def)
  note pf = sorted_perm_facts [OF ms]
  have top: "dist_top srt d n = Inr (take m perm)"
    using assms(2) pf(1)
    by (auto simp: dist_top_def Let_def perm_def [symmetric] m_def min_def)
  have 1: "length (take m perm) = min (nat n) V" using pf(1) by (simp add: m_def)
  have 2: "distinct (take m perm)" using pf(2) by simp
  have 3: "set (take m perm) \<subseteq> {0 ..< V}" using pf(3) set_take_subset by fastforce
  have 4: "count_d d ! j \<le> count_d d ! i"
    if "i \<in> set (take m perm)" "j < V" "j \<notin> set (take m perm)" for i j
  proof -
    have "j \<in> set perm" using that(2) pf(3) by simp
    from take_dominates [OF so that(1) this that(3)]
    show ?thesis by (simp add: distSorter_Less_def)
  qed
  have 5: "mset (take m perm) = mset [0 ..< V]" if "int V \<le> n"
  proof -
    have "m = V" using that by (simp add: m_def)
    then show ?thesis using ms pf(1) by simp
  qed
  have 6: "take m perm = []" if "n = 0" using that by (simp add: m_def)
  show ?thesis
    unfolding V_def [symmetric] using top 1 2 3 4 5 6 by blast
qed

theorem dist_top_spec_witness:
  "sort_Sort_contract insertionSort
     (distSorter_Less \<lparr>sum_d = 6, count_d = [1, 3, 0, 2], alpha = 1/40, alphas = 1/10\<rparr>)
     (newDistSorter \<lparr>sum_d = 6, count_d = [1, 3, 0, 2], alpha = 1/40, alphas = 1/10\<rparr>)
   \<and> dist_top insertionSort \<lparr>sum_d = 6, count_d = [1, 3, 0, 2], alpha = 1/40, alphas = 1/10\<rparr> 2 = Inr [1, 3]
   \<and> dist_top insertionSort \<lparr>sum_d = 6, count_d = [1, 3, 0, 2], alpha = 1/40, alphas = 1/10\<rparr> 9 = Inr [1, 3, 0, 2]
   \<and> dist_top insertionSort \<lparr>sum_d = 6, count_d = [1, 3, 0, 2], alpha = 1/40, alphas = 1/10\<rparr> 0 = Inr []"
proof -
  let ?d = "\<lparr>sum_d = 6, count_d = [1, 3, 0, 2], alpha = 1/40, alphas = 1/10\<rparr>"
  have s: "insertionSort (distSorter_Less ?d) (newDistSorter ?d) = [1, 3, 0, 2]"
    by code_simp
  have c: "sort_Sort_contract insertionSort (distSorter_Less ?d) (newDistSorter ?d)"
    by code_simp
  have "(0::int) \<le> 2" "(0::int) \<le> 9" "(0::int) \<le> 0" by simp_all
  note t = dist_top_spec [OF c this(1)] dist_top_spec [OF c this(2)] dist_top_spec [OF c this(3)]
  show ?thesis using c t by (simp add: dist_top_def s)
qed

section \<open>Properties of the weighted draw\<close>

lemma pickRandom_scan_le: "i \<le> length a \<Longrightarrow> pickRandom_scan a r i \<le> length a"
proof (induction a r i rule: pickRandom_scan.induct)
  case (1 a r i)
  show ?case
  proof (cases "i < length a \<and> f32_less (a ! i) r")
    case True
    then have "pickRandom_scan a r i = pickRandom_scan a (f32_round (f32_sub r (a ! i))) (i + 1)"
      by (subst pickRandom_scan.simps) simp
    moreover have "pickRandom_scan a (f32_round (f32_sub r (a ! i))) (i + 1) \<le> length a"
      using True "1.IH" by simp
    ultimately show ?thesis by simp
  next
    case False
    then have "pickRandom_scan a r i = i"
      by (subst pickRandom_scan.simps) simp
    with "1.prems" show ?thesis by simp
  qed
qed

lemma pickRandom_sum_fails:
  "(\<exists>e. pickRandom_sum a s = Inl e) \<longleftrightarrow> (\<exists>x\<in>set a. f32_less x (Fin 0))"
  by (induction a arbitrary: s) auto

lemma pickRandom_sum_NegativeValue:
  "pickRandom_sum a s = Inl e \<Longrightarrow> \<exists>x\<in>set a. e = NegativeValue x \<and> f32_less x (Fin 0)"
  by (induction a arbitrary: s) (auto split: if_splits)

text \<open>Rules that evaluate a rounding on a given number.\<close>

lemma fp_quantum_numeral:
  "fp_quantum p x q (numeral k)
     = (if \<bar>x\<bar> < q * 2 ^ p then q else fp_quantum p x (2 * q) (pred_numeral k))"
  by (simp add: numeral_eq_Suc)

lemma floor_rat_numeral: "\<lfloor>numeral a / numeral b :: rat\<rfloor> = numeral a div numeral b"
  using floor_divide_of_int_eq [of "numeral a" "numeral b", where ?'a = rat] by simp

lemma floor_rat_neg_numeral: "\<lfloor>- (numeral a / numeral b) :: rat\<rfloor> = - numeral a div numeral b"
  using floor_divide_of_int_eq [of "- numeral a" "numeral b", where ?'a = rat] by simp

lemma floor_rat_one_numeral: "\<lfloor>1 / numeral b :: rat\<rfloor> = 1 div numeral b"
  using floor_divide_of_int_eq [of 1 "numeral b", where ?'a = rat] by simp

lemmas round_defs = f32_of_rat_def fp_round_def round_half_even_def Let_def fp_quantum_numeral
  f64_of_int63_def floor_rat_numeral floor_rat_neg_numeral floor_rat_one_numeral

text \<open>
  The bound of \<open>rand_Float32\<close>: the largest raw value below it gives the largest
  \<^verbatim>\<open>float32\<close> below \<open>1\<close>, and the bound itself would give \<open>1\<close>.
\<close>

lemma rand_Float32_bound:
  "f32_of_rat (f64_of_int63 (2 ^ 63 - 2 ^ 38 - 2 ^ 9 - 1) / 2 ^ 63) = Fin (1 - 1 / 2 ^ 24)
   \<and> f32_of_rat (f64_of_int63 (2 ^ 63 - 2 ^ 38 - 2 ^ 9) / 2 ^ 63) = Fin 1"
  by (simp add: round_defs)

lemma f32_of_rat_0: "f32_of_rat 0 = Fin 0"
  by (simp add: f32_of_rat_def fp_round_def round_half_even_def)

lemma pickRandom_sum_zeros:
  "\<forall>x\<in>set a. x = Fin 0 \<Longrightarrow> pickRandom_sum a (Fin 0) = Inr (Fin 0)"
  by (induction a) (auto simp: f32_of_rat_0)

text \<open>
  Claim C9. For a non-empty slice of weights none of which is negative, and for every
  random source, the draw succeeds and returns an index below the length of the slice.
  The scan can pass every weight, because the sum of the weights and the subtractions
  of the scan are rounded differently; whatever the value of \<open>r\<close>, the scan stops at
  the length of the slice at the latest, and stepping back by one from there, as the
  draw does, gives an index of the slice.
\<close>

theorem pickRandom_in_range:
  assumes "a \<noteq> []" and "\<forall>x\<in>set a. \<not> f32_less x (Fin 0)"
  shows "(\<exists>i rnd'. pickRandom a rnd = Inr (i, rnd') \<and> i < length a)
       \<and> (\<forall>r. pickRandom_scan a r 0 \<le> length a
              \<and> (if pickRandom_scan a r 0 = length a then pickRandom_scan a r 0 - 1
                  else pickRandom_scan a r 0) < length a)"
proof -
  have len: "0 < length a" using assms(1) by simp
  have scan: "pickRandom_scan a r 0 \<le> length a" for r
    by (rule pickRandom_scan_le) simp
  have clamp: "(if pickRandom_scan a r 0 = length a then pickRandom_scan a r 0 - 1
                else pickRandom_scan a r 0) < length a" for r
    using scan [of r] len by auto
  obtain s where s: "pickRandom_sum a (Fin 0) = Inr s"
    using assms(2) pickRandom_sum_fails [of a "Fin 0"] by (cases "pickRandom_sum a (Fin 0)") auto
  show ?thesis
  proof (cases "f32_is_zero s")
    case True
    then show ?thesis using s len scan clamp
      by (simp add: pickRandom_def rand_Intn_def del: pickRandom_scan.simps)
  next
    case False
    define r where "r = f32_round (f32_mul (fst (rand_Float32 rnd)) s)"
    define i where "i = pickRandom_scan a r 0"
    have "(if i = length a then i - 1 else i) < length a"
      unfolding i_def by (rule clamp)
    moreover have "pickRandom a rnd
        = Inr (if i = length a then i - 1 else i, snd (rand_Float32 rnd))"
      using s len False
      by (simp add: pickRandom_def Let_def i_def r_def split_beta del: pickRandom_scan.simps)
    ultimately show ?thesis using scan clamp by blast
  qed
qed

text \<open>
  The weights \<open>1, 3 * 2^-24, 3 * 2^-24, 3 * 2^-24\<close> add up to \<open>1 + 6 * 2^-23\<close> in
  \<^verbatim>\<open>float32\<close>, each addition being rounded up. With \<^verbatim>\<open>Float32()\<close> giving
  \<open>1 - 2^-24\<close> the scan starts from \<open>r = 1 + 5 * 2^-23\<close>, passes all four weights and
  stops at the length of the slice; the draw returns the last index.
\<close>

theorem pickRandom_in_range_witness:
  "pickRandom [Fin 1, Fin (3 / 2 ^ 24), Fin (3 / 2 ^ 24), Fin (3 / 2 ^ 24)]
       (\<lambda>_. 9223371487098961920)
     = Inr (3, rand_rest (\<lambda>_. 9223371487098961920))
   \<and> pickRandom_sum [Fin 1, Fin (3 / 2 ^ 24), Fin (3 / 2 ^ 24), Fin (3 / 2 ^ 24)] (Fin 0)
     = Inr (Fin (1 + 6 / 2 ^ 23))
   \<and> fst (rand_Float32 (\<lambda>_. 9223371487098961920)) = Fin (1 - 1 / 2 ^ 24)
   \<and> pickRandom_scan [Fin 1, Fin (3 / 2 ^ 24), Fin (3 / 2 ^ 24), Fin (3 / 2 ^ 24)]
       (Fin (1 + 5 / 2 ^ 23)) 0 = 4"
proof -
  let ?a = "[Fin 1, Fin (3 / 2 ^ 24), Fin (3 / 2 ^ 24), Fin (3 / 2 ^ 24)]"
  have s: "pickRandom_sum ?a (Fin 0) = Inr (Fin (1 + 6 / 2 ^ 23))"
    by (simp add: round_defs)
  have u: "rand_Float32 (\<lambda>_. 9223371487098961920)
             = (Fin (1 - 1 / 2 ^ 24), rand_rest (\<lambda>_. 9223371487098961920))"
    by (simp add: round_defs rand_Float32_def)
  have i: "pickRandom_scan ?a (Fin (1 + 5 / 2 ^ 23)) 0 = 4"
    by (simp add: round_defs f32_sub_def)
  have p: "pickRandom ?a (\<lambda>_. 9223371487098961920)
             = Inr (3, rand_rest (\<lambda>_. 9223371487098961920))"
    by (simp add: round_defs rand_Float32_def pickRandom_def f32_is_zero_def f32_sub_def)
  have "?a \<noteq> []" by simp
  moreover have "\<forall>x\<in>set ?a. \<not> f32_less x (Fin 0)" by simp
  ultimately have "(\<exists>i rnd'. pickRandom ?a (\<lambda>_. 9223371487098961920) = Inr (i, rnd')
        \<and> i < length ?a)
      \<and> (\<forall>r. pickRandom_scan ?a r 0 \<le> length ?a
              \<and> (if pickRandom_scan ?a r 0 = length ?a then pickRandom_scan ?a r 0 - 1
                  else pickRandom_scan ?a r 0) < length ?a)"
    by (rule pickRandom_in_range)
  with p s u i show ?thesis by (simp del: pickRandom_scan.simps)
qed

text \<open>
  Claim C5. The draw panics exactly when the slice is empty or holds a negative weight,
  and every panic of the draw is an invalid-argument failure; on a non-empty slice whose
  weights are all exactly zero it returns \<^verbatim>\<open>rnd.Intn(len(a))\<close>, the uniform draw of the
  random source over all indices.
\<close>

theorem pickRandom_errors:
  "((a = [] \<or> (\<exists>x\<in>set a. f32_less x (Fin 0)))
      \<longleftrightarrow> (\<exists>e. pickRandom a rnd = Inl e))
   \<and> (\<forall>e. pickRandom a rnd = Inl e \<longrightarrow> invalid_argument e)
   \<and> (a \<noteq> [] \<and> (\<forall>x\<in>set a. x = Fin 0)
        \<longrightarrow> pickRandom a rnd = rand_Intn rnd (int (length a))
          \<and> pickRandom a rnd = Inr (rnd 0 mod length a, rand_rest rnd))"
proof (intro conjI allI impI)
  show "(a = [] \<or> (\<exists>x\<in>set a. f32_less x (Fin 0))) \<longleftrightarrow> (\<exists>e. pickRandom a rnd = Inl e)"
  proof (cases "a = []")
    case True
    then show ?thesis by (simp add: pickRandom_def)
  next
    case False
    then show ?thesis
      using pickRandom_sum_fails [of a "Fin 0"]
      by (auto simp: pickRandom_def rand_Intn_def rand_Float32_def Let_def
               simp del: pickRandom_scan.simps split: sum.splits)
  qed
next
  fix e assume "pickRandom a rnd = Inl e"
  then show "invalid_argument e"
    by (auto simp: pickRandom_def rand_Intn_def rand_Float32_def Let_def
             simp del: pickRandom_scan.simps split: sum.splits if_splits
             dest!: pickRandom_sum_NegativeValue)
next
  assume h: "a \<noteq> [] \<and> (\<forall>x\<in>set a. x = Fin 0)"
  then show "pickRandom a rnd = rand_Intn rnd (int (length a))"
    using pickRandom_sum_zeros [of a]
    by (simp add: pickRandom_def f32_is_zero_def)
  from h show "pickRandom a rnd = Inr (rnd 0 mod length a, rand_rest rnd)"
    using pickRandom_sum_zeros [of a]
    by (simp add: pickRandom_def f32_is_zero_def rand_Intn_def)
qed

theorem pickRandom_errors_witness:
  "pickRandom [] (\<lambda>_. 7) = Inl EmptyDistribution
   \<and> pickRandom [Fin 1, Fin (-1)] (\<lambda>_. 7) = Inl (NegativeValue (Fin (-1)))
   \<and> pickRandom [Fin 0, Fin 0, Fin 0] (\<lambda>_. 7) = Inr (1, rand_rest (\<lambda>_. 7))"
  using pickRandom_errors [of "[]" "\<lambda>_. 7"]
        pickRandom_errors [of "[Fin 1, Fin (-1)]" "\<lambda>_. 7"]
        pickRandom_errors [of "[Fin 0, Fin 0, Fin 0]" "\<lambda>_. 7"]
  by (simp add: pickRandom_def rand_Intn_def f32_is_zero_def)

section \<open>Properties of the sampler\<close>

subsection \<open>The halting condition\<close>

lemma halting_run_stagnant:
  "bs < 5 \<Longrightarrow>
   fst (halting_run (lc, bs) cs) \<longleftrightarrow> 5 \<le> bs + stagnant_rounds lc cs"
proof (induction cs arbitrary: lc bs)
  case Nil
  then show ?case by simp
next
  case (Cons c cs)
  show ?case
  proof (cases "c \<ge> lc")
    case True
    show ?thesis
    proof (cases "bs + 1 = 5")
      case True
      with \<open>c \<ge> lc\<close> show ?thesis by (simp add: halting_check_def)
    next
      case False
      with Cons.prems have "bs + 1 < 5" by simp
      from Cons.IH [OF this, of c] False True show ?thesis
        by (simp add: halting_check_def)
    qed
  next
    case False
    from Cons.IH [OF Cons.prems, of c] False show ?thesis
      by (simp add: halting_check_def)
  qed
qed

text \<open>
  Claim C1, as the code has it. A round of size \<open>c\<close> raises \<^verbatim>\<open>breakSignals\<close> by one
  when \<open>c \<ge> lastChange\<close> and leaves it as it is otherwise: the counter is never reset.
  The loop is left exactly when this brings the counter to \<open>5\<close>; otherwise
  \<^verbatim>\<open>lastChange\<close> becomes \<open>c\<close>. So, started with the counter at \<open>0\<close>, the loop is left
  within a run of rounds exactly when the run holds five non-reducing rounds, whether
  they follow one another or not.
\<close>

theorem halting_check_amended:
  "snd (snd (halting_check c (lc, bs)))
     = (if c \<ge> lc then bs + 1 else bs)
   \<and> (fst (halting_check c (lc, bs))
        \<longleftrightarrow> c \<ge> lc \<and> bs + 1 = 5)
   \<and> fst (snd (halting_check c (lc, bs)))
       = (if fst (halting_check c (lc, bs)) then lc else c)
   \<and> (fst (halting_run (lc, 0) cs) \<longleftrightarrow> 5 \<le> stagnant_rounds lc cs)"
  using halting_run_stagnant [of 0 lc cs]
  by (simp add: halting_check_def)

text \<open>
  Claim C1 as stated fails. After a non-reducing round (size \<open>3\<close> against \<open>3\<close>) a
  reducing round (size \<open>2\<close>) leaves the counter at \<open>1\<close>, where the claim resets it to
  \<open>0\<close>; and the sizes \<open>3, 2, 3, 2, 3, 2, 3, 2, 3\<close>, which never hold two non-reducing
  rounds in a row, end the loop in the ninth round, where the claim's rule goes on.
\<close>

theorem halting_check_counterexample:
  "halting_check 2 (3, 1) = (False, 2, 1)
   \<and> spec_halting_check 2 (3, 1) = (False, 2, 0)
   \<and> halting_run (3, 0) [3, 2, 3, 2, 3, 2, 3, 2, 3] = (True, 2, 5)
   \<and> spec_halting_run (3, 0) [3, 2, 3, 2, 3, 2, 3, 2, 3] = (False, 3, 1)"
  by (simp add: halting_check_def spec_halting_check_def)

subsection \<open>The checks of the arguments\<close>

lemma length_words_add: "length ws \<le> length (words_add w ws)"
  by (simp add: words_add_def split: option.splits)

lemma length_fold_words_add: "length ws \<le> length (fold words_add doc ws)"
proof (induction doc arbitrary: ws)
  case Nil
  then show ?case by simp
next
  case (Cons w doc)
  have "length ws \<le> length (words_add w ws)" by (rule length_words_add)
  also have "\<dots> \<le> length (fold words_add doc (words_add w ws))" by (rule Cons.IH)
  finally show ?case by simp
qed

lemma fold_words_add_nonempty: "doc \<noteq> [] \<Longrightarrow> fold words_add doc ws \<noteq> []"
proof (cases doc)
  case Nil
  assume "doc \<noteq> []" with Nil show ?thesis by simp
next
  case (Cons w doc')
  have "words_add w ws \<noteq> []" by (simp add: words_add_def split: option.splits) (cases ws; simp)
  then have "0 < length (words_add w ws)" by simp
  also have "\<dots> \<le> length (fold words_add doc' (words_add w ws))" by (rule length_fold_words_add)
  finally show ?thesis using Cons by simp
qed

lemma length_fold_docs:
  "length ws \<le> length (fold (\<lambda>doc ws. fold words_add doc ws) docTokens ws)"
proof (induction docTokens arbitrary: ws)
  case Nil
  then show ?case by simp
next
  case (Cons doc docTokens)
  have "length ws \<le> length (fold words_add doc ws)" by (rule length_fold_words_add)
  also have "\<dots> \<le> length (fold (\<lambda>doc ws. fold words_add doc ws) docTokens (fold words_add doc ws))"
    by (rule Cons.IH)
  finally show ?case by simp
qed

lemma fold_docs_empty:
  "fold (\<lambda>doc ws. fold words_add doc ws) docTokens ws = [] \<longleftrightarrow> ws = [] \<and> concat docTokens = []"
proof (induction docTokens arbitrary: ws)
  case Nil
  then show ?case by simp
next
  case (Cons doc docTokens)
  show ?case
  proof (cases "doc = []")
    case True
    then show ?thesis using Cons.IH [of ws] by simp
  next
    case False
    then have "fold words_add doc ws \<noteq> []" by (rule fold_words_add_nonempty)
    then show ?thesis using Cons.IH [of "fold words_add doc ws"] False by simp
  qed
qed

lemma make_words_empty: "make_words docTokens = [] \<longleftrightarrow> concat docTokens = []"
  by (simp add: make_words_def fold_docs_empty)

text \<open>
  Claim C7. \<^verbatim>\<open>LdaThreads\<close> panics with the message for \<open>k\<close> when \<open>k < 1\<close>, else with
  the message for the number of threads when that is below \<open>1\<close>, else with the message
  for zero words when the documents hold no token. Each is an invalid-argument failure;
  the result is the panic alone, and the global random source is returned as it was
  passed: no topic has been drawn. This holds for every schedule and random source.
\<close>

theorem LdaThreads_preconditions:
  "(k < 1 \<longrightarrow>
      LdaThreads sch docTokens k numThreads g = Some (Inl (KNotPositive k), g))
   \<and> (1 \<le> k \<and> numThreads < 1 \<longrightarrow>
      LdaThreads sch docTokens k numThreads g = Some (Inl (ThreadsNotPositive numThreads), g))
   \<and> (1 \<le> k \<and> 1 \<le> numThreads \<and> concat docTokens = [] \<longrightarrow>
      LdaThreads sch docTokens k numThreads g = Some (Inl NoWords, g))
   \<and> invalid_argument (KNotPositive k)
   \<and> invalid_argument (ThreadsNotPositive numThreads)
   \<and> invalid_argument NoWords"
  using make_words_empty [of docTokens]
  by (simp add: LdaThreads_def Let_def)

theorem LdaThreads_preconditions_witness:
  "LdaThreads \<lparr>newRand = \<lambda>r w n. 0, receiver = \<lambda>r i. 0\<rparr> [[''a'', ''b'']] 0 1 (\<lambda>n. n)
     = Some (Inl (KNotPositive 0), \<lambda>n. n)
   \<and> LdaThreads \<lparr>newRand = \<lambda>r w n. 0, receiver = \<lambda>r i. 0\<rparr> [[''a'', ''b'']] 2 0 (\<lambda>n. n)
     = Some (Inl (ThreadsNotPositive 0), \<lambda>n. n)
   \<and> LdaThreads \<lparr>newRand = \<lambda>r w n. 0, receiver = \<lambda>r i. 0\<rparr> [[], []] 2 1 (\<lambda>n. n)
     = Some (Inl NoWords, \<lambda>n. n)"
  using LdaThreads_preconditions [of 0 "\<lparr>newRand = \<lambda>r w n. 0, receiver = \<lambda>r i. 0\<rparr>" "[[''a'', ''b'']]" 1 "\<lambda>n. n"]
        LdaThreads_preconditions [of 2 "\<lparr>newRand = \<lambda>r w n. 0, receiver = \<lambda>r i. 0\<rparr>" "[[''a'', ''b'']]" 0 "\<lambda>n. n"]
        LdaThreads_preconditions [of 2 "\<lparr>newRand = \<lambda>r w n. 0, receiver = \<lambda>r i. 0\<rparr>" "[[], []]" 1 "\<lambda>n. n"]
  by simp

subsection \<open>The running sum of a document's table\<close>

lemma loop_append:
  "loop body (xs @ ys) s = (case loop body xs s of Inl e \<Rightarrow> Inl e | Inr s' \<Rightarrow> loop body ys s')"
  by (induction xs arbitrary: s) (auto split: sum.splits)

lemma loop_invariant:
  assumes "loop body xs s = Inr s'" and "P s"
    and "\<And>x s s'. x \<in> set xs \<Longrightarrow> P s \<Longrightarrow> body x s = Inr s' \<Longrightarrow> P s'"
  shows "P s'"
  using assms
proof (induction xs arbitrary: s)
  case Nil
  then show ?case by simp
next
  case (Cons x xs)
  from Cons.prems(1) obtain s1 where b: "body x s = Inr s1" and l: "loop body xs s1 = Inr s'"
    by (auto split: sum.splits)
  have "P s1" using Cons.prems(2) Cons.prems(3) [of x s s1] b by simp
  then show ?case
  proof (rule Cons.IH [OF l])
    fix y t t' assume "y \<in> set xs" "P t" "body y t = Inr t'"
    then show "P t'" using Cons.prems(3) [of y t t'] by simp
  qed
qed

lemma loop_prefix:
  assumes "loop body (xs @ ys) s = Inr s'"
  shows "\<exists>s1. loop body xs s = Inr s1"
  using assms by (auto simp: loop_append split: sum.splits)

lemma f32_inc_dec: "- f32_max_int < x \<Longrightarrow> x \<le> f32_max_int \<Longrightarrow> f32_inc (f32_dec x) = x"
  by (simp add: f32_inc_def f32_dec_def f32_max_int_def)

lemma f32_inc_min: "f32_inc (min (int m) f32_max_int) = min (int (Suc m)) f32_max_int"
  by (simp add: f32_inc_def f32_max_int_def min_def)

lemma dist_add_sum: "dist_add d i = Inr d' \<Longrightarrow> sum_d d' = f32_inc (sum_d d)"
  by (auto simp: dist_add_def split: if_splits)

lemma dist_sub_sum: "dist_sub d i = Inr d' \<Longrightarrow> sum_d d' = f32_dec (sum_d d)"
  by (auto simp: dist_sub_def Let_def split: if_splits)

lemma token_unassign_sum:
  "token_unassign doc j s = Inr s1 \<Longrightarrow> sum_d (cur_d s1) = f32_dec (sum_d (cur_d s))"
  by (auto simp: token_unassign_def split: if_splits sum.splits dest: dist_sub_sum)

lemma token_assign_sum:
  "token_assign doc j t2 s = Inr s' \<Longrightarrow> sum_d (cur_d s') = f32_inc (sum_d (cur_d s))"
  by (auto simp: token_assign_def Let_def split: if_splits sum.splits dest: dist_add_sum)

lemma token_step_sum:
  assumes "token_step K doc j s = Inr s'"
  shows "sum_d (cur_d s') = f32_inc (f32_dec (sum_d (cur_d s)))"
proof -
  from assms obtain s1 t2 rnd' where u: "token_unassign doc j s = Inr s1"
    and a: "token_assign doc j t2 (s1\<lparr>myRand := rnd'\<rparr>) = Inr s'"
    by (auto simp: token_step_def split: sum.splits prod.splits)
  from token_assign_sum [OF a] token_unassign_sum [OF u] show ?thesis by simp
qed

lemma build_d_sum:
  "build_d K row m = Inr d \<Longrightarrow> sum_d d = min (int m) f32_max_int"
proof (induction m arbitrary: d)
  case 0
  then show ?case by (auto simp: build_d_def newDist_def f32_max_int_def)
next
  case (Suc m)
  from Suc.prems obtain d1 where 1: "build_d K row m = Inr d1"
    and 2: "dist_add d1 (row ! m) = Inr d"
    by (auto simp: build_d_def loop_append split: sum.splits)
  from Suc.IH [OF 1] dist_add_sum [OF 2] show ?case by (simp add: f32_inc_min)
qed

lemma resample_sum:
  assumes "resample K doc s0 m = Inr s" and "0 \<le> sum_d (cur_d s0)" and "sum_d (cur_d s0) \<le> f32_max_int"
  shows "sum_d (cur_d s) = sum_d (cur_d s0)"
proof -
  have "sum_d (cur_d s) = sum_d (cur_d s0)"
  proof (rule loop_invariant [where P = "\<lambda>s. sum_d (cur_d s) = sum_d (cur_d s0)"
          and body = "token_step K doc" and xs = "[0 ..< m]" and s = s0])
    show "loop (token_step K doc) [0 ..< m] s0 = Inr s" using assms(1) by (simp add: resample_def)
    show "sum_d (cur_d s0) = sum_d (cur_d s0)" by simp
    fix x s s' assume "sum_d (cur_d s) = sum_d (cur_d s0)" "token_step K doc x s = Inr s'"
    then show "sum_d (cur_d s') = sum_d (cur_d s0)"
      using token_step_sum [of K doc x s s'] assms(2,3)
      by (simp add: f32_inc_dec f32_max_int_def)
  qed
  then show ?thesis .
qed

text \<open>
  Claim C2, as the code has it. While the document's table is rebuilt, its sum is the
  number of tokens added so far. The resampling loop starts from the full table: after
  any number \<open>m\<close> of its rounds the sum is the number of tokens of the whole document,
  and between the unassignment and the assignment of a token it is one less. (A
  \<^verbatim>\<open>float32\<close> sum stops growing at \<open>2^24\<close>, hence the minimum.)
\<close>

theorem running_sum_amended:
  "m \<le> length row \<Longrightarrow>
       (build_d K row m = Inr d' \<longrightarrow> sum_d d' = min (int m) f32_max_int)
       \<and> (build_d K row (length row) = Inr d0 \<and> cur_d s0 = d0 \<and> resample K doc s0 m = Inr s
            \<longrightarrow> sum_d (cur_d s) = min (int (length row)) f32_max_int
              \<and> (\<forall>s1. token_unassign doc m s = Inr s1
                    \<longrightarrow> sum_d (cur_d s1) = min (int (length row)) f32_max_int - 1))"
proof (intro conjI impI allI)
  assume "build_d K row m = Inr d'"
  then show "sum_d d' = min (int m) f32_max_int" by (rule build_d_sum)
next
  assume h: "build_d K row (length row) = Inr d0 \<and> cur_d s0 = d0 \<and> resample K doc s0 m = Inr s"
  then have 0: "sum_d (cur_d s0) = min (int (length row)) f32_max_int"
    using build_d_sum by blast
  then have b: "0 \<le> sum_d (cur_d s0)" "sum_d (cur_d s0) \<le> f32_max_int"
    by (simp_all add: f32_max_int_def)
  from h have r: "resample K doc s0 m = Inr s" by simp
  from resample_sum [OF r b] 0
  show 1: "sum_d (cur_d s) = min (int (length row)) f32_max_int" by simp
  fix s1 assume "token_unassign doc m s = Inr s1"
  from token_unassign_sum [OF this] 1
  show "sum_d (cur_d s1) = min (int (length row)) f32_max_int - 1"
    by (simp add: f32_dec_def f32_max_int_def)
qed

lemmas eval_defs = doc_start_def token_unassign_def token_assign_def token_step_def
  dist_sub_def dist_add_def dists_sub_def dists_add_def dist_p_def f32_div_def f32_dec_def f32_inc_def
  f32_max_int_def Let_def pickRandom_def rand_Float32_def rand_Intn_def f32_is_zero_def f32_sub_def
  resample_def round_defs

theorem running_sum_amended_witness:
  "build_d 2 [0, 1] 1 = Inr \<lparr>sum_d = 1, count_d = [1, 0], alpha = 1/20, alphas = 1/10\<rparr>
   \<and> build_d 2 [0, 1] 2 = Inr \<lparr>sum_d = 2, count_d = [1, 1], alpha = 1/20, alphas = 1/10\<rparr>
   \<and> (case resample 2 [0, 1]
          (doc_start \<lparr>sum_d = 2, count_d = [1, 1], alpha = 1/20, alphas = 1/10\<rparr> 0
             \<lparr>w_doct = [[0, 1]],
              w_topics = [\<lparr>sum_d = 1, count_d = [1, 0], alpha = 1/20, alphas = 1/10\<rparr>,
                          \<lparr>sum_d = 1, count_d = [0, 1], alpha = 1/20, alphas = 1/10\<rparr>],
              w_changes = {}, w_rand = \<lambda>n. 8388608\<rparr>) 1 of
         Inl e \<Rightarrow> None
       | Inr s \<Rightarrow> Some (cur_d s, cur_row s, myTopics s, myChangeMap s))
      = Some (\<lparr>sum_d = 2, count_d = [0, 2], alpha = 1/20, alphas = 1/10\<rparr>, [1, 1],
              [\<lparr>sum_d = 0, count_d = [0, 0], alpha = 1/20, alphas = 1/10\<rparr>,
               \<lparr>sum_d = 2, count_d = [1, 1], alpha = 1/20, alphas = 1/10\<rparr>], {0})"
proof -
  let ?d0 = "\<lparr>sum_d = 2, count_d = [1, 1], alpha = 1/20, alphas = 1/10\<rparr>"
  let ?s0 = "doc_start ?d0 0
             \<lparr>w_doct = [[0, 1]],
              w_topics = [\<lparr>sum_d = 1, count_d = [1, 0], alpha = 1/20, alphas = 1/10\<rparr>,
                          \<lparr>sum_d = 1, count_d = [0, 1], alpha = 1/20, alphas = 1/10\<rparr>],
              w_changes = {}, w_rand = \<lambda>n. 8388608\<rparr>"
  have b1: "build_d 2 [0, 1] 1 = Inr \<lparr>sum_d = 1, count_d = [1, 0], alpha = 1/20, alphas = 1/10\<rparr>"
    by code_simp
  have b2: "build_d 2 [0, 1] 2 = Inr ?d0"
    by code_simp
  have r: "(case resample 2 [0, 1] ?s0 1 of
         Inl e \<Rightarrow> None
       | Inr s \<Rightarrow> Some (cur_d s, cur_row s, myTopics s, myChangeMap s))
      = Some (\<lparr>sum_d = 2, count_d = [0, 2], alpha = 1/20, alphas = 1/10\<rparr>, [1, 1],
              [\<lparr>sum_d = 0, count_d = [0, 0], alpha = 1/20, alphas = 1/10\<rparr>,
               \<lparr>sum_d = 2, count_d = [1, 1], alpha = 1/20, alphas = 1/10\<rparr>], {0})"
    by (simp add: eval_defs upt_rec)
  have "(1::nat) \<le> length [0::nat, 1]" by simp
  note running_sum_amended [OF this, of 2]
  with b1 b2 r show ?thesis by simp
qed

text \<open>
  Claim C2 as stated fails: in a document of two tokens, after the resampling loop has
  processed one token the sum of the document's table is \<open>2\<close>, not \<open>1\<close>.
\<close>

theorem running_sum_counterexample:
  "(case resample 2 [0, 1]
          (doc_start \<lparr>sum_d = 2, count_d = [1, 1], alpha = 1/20, alphas = 1/10\<rparr> 0
             \<lparr>w_doct = [[0, 1]],
              w_topics = [\<lparr>sum_d = 1, count_d = [1, 0], alpha = 1/20, alphas = 1/10\<rparr>,
                          \<lparr>sum_d = 1, count_d = [0, 1], alpha = 1/20, alphas = 1/10\<rparr>],
              w_changes = {}, w_rand = \<lambda>n. 8388608\<rparr>) 1 of
         Inl e \<Rightarrow> None
       | Inr s \<Rightarrow> Some (sum_d (cur_d s))) = Some 2
   \<and> (case resample 2 [0, 1]
          (doc_start \<lparr>sum_d = 2, count_d = [1, 1], alpha = 1/20, alphas = 1/10\<rparr> 0
             \<lparr>w_doct = [[0, 1]],
              w_topics = [\<lparr>sum_d = 1, count_d = [1, 0], alpha = 1/20, alphas = 1/10\<rparr>,
                          \<lparr>sum_d = 1, count_d = [0, 1], alpha = 1/20, alphas = 1/10\<rparr>],
              w_changes = {}, w_rand = \<lambda>n. 8388608\<rparr>) 1 of
         Inl e \<Rightarrow> None
       | Inr s \<Rightarrow> Some (sum_d (cur_d s))) \<noteq> Some (int 1)"
  by (simp add: eval_defs upt_rec)

end
